theory Spec2Isabelle
  imports Complex_Main "HOL-Library.Multiset" "HOL-Library.AList"
begin

section \<open>JavaScript strings\<close>





definition startsWith :: "string \<Rightarrow> string \<Rightarrow> bool" where
  "startsWith s p = (take (length p) s = p)"

text \<open>\<open>s.includes(sub)\<close>: \<open>sub\<close> occurs in \<open>s\<close> as a contiguous substring.\<close>

fun includesSub :: "string \<Rightarrow> string \<Rightarrow> bool" where
  "includesSub [] sub = (sub = [])"
| "includesSub (c # cs) sub = (startsWith (c # cs) sub \<or> includesSub cs sub)"

section \<open>The page store: hook \<open>useDatabase\<close>\<close>

text \<open>
  The two tables of \<open>browser.db\<close>. A table is the list of its rows in rowid order.
  \<open>visited_at\<close> and \<open>created_at\<close> are the instants that the stored \<open>CURRENT_TIMESTAMP\<close> texts
  denote, as integers; the fixed-width text compares as the instant does.
\<close>

record bookmark_item =
  b_id :: nat
  b_url :: string
  b_title :: string
  created_at :: int

record history_item =
  h_id :: nat
  h_url :: string
  h_title :: string
  visited_at :: int

datatype error =
    DatabaseNotInitialized
  | BookmarkAlreadyExists
  | SqlError
  | StorageError
  | FailedToSaveSettings
  | SyntaxError

text \<open>
  \<open>db\<close> is the hook's state variable: \<open>False\<close> is \<open>null\<close>, before \<open>initializeDatabase\<close> has
  finished. The \<open>_seq\<close> fields are the \<open>sqlite_sequence\<close> counters of \<open>AUTOINCREMENT\<close>.
  \<open>faults\<close> is what the engine will do with the statements still to come: the head says
  whether the next statement is rejected; the empty list rejects nothing.
\<close>

record page_store =
  db :: bool
  bookmarks :: "bookmark_item list"
  bookmarks_seq :: nat
  history :: "history_item list"
  history_seq :: nat
  faults :: "bool list"

definition next_statement_rejected :: "page_store \<Rightarrow> bool" where
  "next_statement_rejected s = (case faults s of [] \<Rightarrow> False | rejected # _ \<Rightarrow> rejected)"

definition run_statement ::
  "(page_store \<Rightarrow> 'a \<times> page_store) \<Rightarrow> page_store \<Rightarrow> (error + 'a) \<times> page_store" where
  "run_statement stmt s =
     (let s0 = s\<lparr>faults := tl (faults s)\<rparr>
      in if next_statement_rejected s then (Inl SqlError, s0)
         else (case stmt s0 of (r, s') \<Rightarrow> (Inr r, s')))"

definition runAsync ::
  "(page_store \<Rightarrow> page_store) \<Rightarrow> page_store \<Rightarrow> (error + unit) \<times> page_store" where
  "runAsync upd = run_statement (\<lambda>s. ((), upd s))"

definition getAllAsync ::
  "(page_store \<Rightarrow> 'a list) \<Rightarrow> page_store \<Rightarrow> (error + 'a list) \<times> page_store" where
  "getAllAsync query = run_statement (\<lambda>s. (query s, s))"

definition getFirstAsync ::
  "(page_store \<Rightarrow> 'a list) \<Rightarrow> page_store \<Rightarrow> (error + 'a option) \<times> page_store" where
  "getFirstAsync query =
     run_statement (\<lambda>s. (case query s of [] \<Rightarrow> None | r # _ \<Rightarrow> Some r, s))"

text \<open>
  \<open>AUTOINCREMENT\<close>: the new rowid is one more than the largest rowid the table has ever
  held.
\<close>

definition next_rowid :: "nat \<Rightarrow> nat list \<Rightarrow> nat" where
  "next_rowid seq ids = Suc (fold max ids seq)"

text \<open>
  \<open>ORDER BY visited_at DESC\<close>, a stable sort of the rows in rowid order: rows with equal
  timestamps stay in rowid order, as a scan of \<open>idx_history_visited_at\<close> yields them.
\<close>

definition order_by_visited_at_desc :: "history_item list \<Rightarrow> history_item list" where
  "order_by_visited_at_desc rows = sort_key (\<lambda>r. - visited_at r) rows"

definition order_by_created_at_desc :: "bookmark_item list \<Rightarrow> bookmark_item list" where
  "order_by_created_at_desc rows = sort_key (\<lambda>r. - created_at r) rows"

subsection \<open>The SQL statements\<close>

definition select_bookmark_by_url :: "string \<Rightarrow> page_store \<Rightarrow> nat list" where
  "select_bookmark_by_url url s = map b_id (filter (\<lambda>r. b_url r = url) (bookmarks s))"

definition insert_bookmark :: "int \<Rightarrow> string \<Rightarrow> string \<Rightarrow> page_store \<Rightarrow> page_store" where
  "insert_bookmark now url title s =
     (let i = next_rowid (bookmarks_seq s) (map b_id (bookmarks s))
      in s\<lparr>bookmarks := bookmarks s @ [\<lparr>b_id = i, b_url = url, b_title = title, created_at = now\<rparr>],
            bookmarks_seq := i\<rparr>)"

definition delete_bookmark_by_id :: "nat \<Rightarrow> page_store \<Rightarrow> page_store" where
  "delete_bookmark_by_id i s = s\<lparr>bookmarks := filter (\<lambda>r. b_id r \<noteq> i) (bookmarks s)\<rparr>"

definition select_bookmarks :: "page_store \<Rightarrow> bookmark_item list" where
  "select_bookmarks s = order_by_created_at_desc (bookmarks s)"

definition delete_history_by_url :: "string \<Rightarrow> page_store \<Rightarrow> page_store" where
  "delete_history_by_url url s = s\<lparr>history := filter (\<lambda>r. h_url r \<noteq> url) (history s)\<rparr>"

definition insert_history :: "int \<Rightarrow> string \<Rightarrow> string \<Rightarrow> page_store \<Rightarrow> page_store" where
  "insert_history now url title s =
     (let i = next_rowid (history_seq s) (map h_id (history s))
      in s\<lparr>history := history s @ [\<lparr>h_id = i, h_url = url, h_title = title, visited_at = now\<rparr>],
            history_seq := i\<rparr>)"

text \<open>\<open>DELETE FROM history WHERE id NOT IN (SELECT id FROM history ORDER BY visited_at DESC LIMIT 1000)\<close>\<close>

definition delete_history_beyond_limit :: "page_store \<Rightarrow> page_store" where
  "delete_history_beyond_limit s =
     (let keep = map h_id (take 1000 (order_by_visited_at_desc (history s)))
      in s\<lparr>history := filter (\<lambda>r. h_id r \<in> set keep) (history s)\<rparr>)"

definition select_history :: "page_store \<Rightarrow> history_item list" where
  "select_history s = take 100 (order_by_visited_at_desc (history s))"

definition delete_history_by_id :: "nat \<Rightarrow> page_store \<Rightarrow> page_store" where
  "delete_history_by_id i s = s\<lparr>history := filter (\<lambda>r. h_id r \<noteq> i) (history s)\<rparr>"

definition delete_history :: "page_store \<Rightarrow> page_store" where
  "delete_history s = s\<lparr>history := []\<rparr>"

subsection \<open>The operations of the hook\<close>

text \<open>
  Every operation returns what its promise settles to (\<open>Inl\<close> a rejection) and the store
  it leaves. \<open>now\<close> is the engine's \<open>CURRENT_TIMESTAMP\<close> at the insert.
\<close>

definition addBookmark ::
  "int \<Rightarrow> string \<Rightarrow> string \<Rightarrow> page_store \<Rightarrow> (error + unit) \<times> page_store" where
  "addBookmark now url title s =
     (if \<not> db s then (Inl DatabaseNotInitialized, s)
      else (case getFirstAsync (select_bookmark_by_url url) s of
              (Inl e, s1) \<Rightarrow> (Inl e, s1)
            | (Inr (Some existing), s1) \<Rightarrow> (Inl BookmarkAlreadyExists, s1)
            | (Inr None, s1) \<Rightarrow> runAsync (insert_bookmark now url title) s1))"

definition removeBookmark :: "nat \<Rightarrow> page_store \<Rightarrow> (error + unit) \<times> page_store" where
  "removeBookmark i s =
     (if \<not> db s then (Inl DatabaseNotInitialized, s)
      else runAsync (delete_bookmark_by_id i) s)"

definition getBookmarks :: "page_store \<Rightarrow> (error + bookmark_item list) \<times> page_store" where
  "getBookmarks s =
     (if \<not> db s then (Inr [], s)
      else (case getAllAsync select_bookmarks s of
              (Inl e, s1) \<Rightarrow> (Inr [], s1)
            | (Inr result, s1) \<Rightarrow> (Inr result, s1)))"

definition addToHistory ::
  "int \<Rightarrow> string \<Rightarrow> string \<Rightarrow> page_store \<Rightarrow> (error + unit) \<times> page_store" where
  "addToHistory now url title s =
     (if \<not> db s then (Inr (), s)
      else (case runAsync (delete_history_by_url url) s of
              (Inl e, s1) \<Rightarrow> (Inr (), s1)
            | (Inr _, s1) \<Rightarrow>
                (case runAsync (insert_history now url title) s1 of
                   (Inl e, s2) \<Rightarrow> (Inr (), s2)
                 | (Inr _, s2) \<Rightarrow>
                     (case runAsync delete_history_beyond_limit s2 of
                        (_, s3) \<Rightarrow> (Inr (), s3)))))"

definition getHistory :: "page_store \<Rightarrow> (error + history_item list) \<times> page_store" where
  "getHistory s =
     (if \<not> db s then (Inr [], s)
      else (case getAllAsync select_history s of
              (Inl e, s1) \<Rightarrow> (Inr [], s1)
            | (Inr result, s1) \<Rightarrow> (Inr result, s1)))"

definition removeHistoryItem :: "nat \<Rightarrow> page_store \<Rightarrow> (error + unit) \<times> page_store" where
  "removeHistoryItem i s =
     (if \<not> db s then (Inl DatabaseNotInitialized, s)
      else runAsync (delete_history_by_id i) s)"

definition clearHistory :: "page_store \<Rightarrow> (error + unit) \<times> page_store" where
  "clearHistory s =
     (if \<not> db s then (Inl DatabaseNotInitialized, s)
      else runAsync delete_history s)"

section \<open>The history view organizer: screen \<open>history.tsx\<close>\<close>

record HistorySection =
  title :: string
  data :: "history_item list"








section \<open>JSON values and \<open>AsyncStorage\<close>\<close>

datatype jvalue =
    JNull
  | JBool bool
  | JNum rat
  | JStr string
  | JArr "jvalue list"
  | JObj "(string \<times> jvalue) list"

text \<open>An object in memory: its properties in order, each key once.\<close>

type_synonym object = "(string \<times> jvalue) list"

function decimal :: "int \<Rightarrow> string" where
  "decimal n =
     (if n < 0 then CHR ''-'' # decimal (- n)
      else if n < 10 then [''0123456789'' ! nat n]
      else decimal (n div 10) @ [''0123456789'' ! nat (n mod 10)])"
  by pat_completeness auto
termination
  by (relation "measure (\<lambda>n. if n < 0 then nat (1 - 2 * n) else nat (2 * n))") auto

declare decimal.simps [simp del]

text \<open>
  The own enumerable properties that an object spread \<open>{...v}\<close> copies: those of an
  object, the indices of an array or of a string, none of any other value.
\<close>

definition own_properties :: "jvalue \<Rightarrow> (string \<times> jvalue) list" where
  "own_properties v =
     (case v of
        JObj props \<Rightarrow> props
      | JArr xs \<Rightarrow> zip (map (\<lambda>i. decimal (int i)) [0..<length xs]) xs
      | JStr s \<Rightarrow> zip (map (\<lambda>i. decimal (int i)) [0..<length s]) (map (\<lambda>c. JStr [c]) s)
      | _ \<Rightarrow> [])"

text \<open>\<open>{...target, ...source}\<close>: the properties are assigned in order, a later one overwriting.\<close>

definition spread :: "object \<Rightarrow> (string \<times> jvalue) list \<Rightarrow> object" where
  "spread target props = fold (\<lambda>(k, v). AList.update k v) props target"

text \<open>
  What a key of the storage holds: \<open>Json v\<close> is the text \<open>JSON.stringify\<close> gives for \<open>v\<close>
  (and \<open>JSON.parse\<close> gives \<open>v\<close> back); \<open>Garbage t\<close> is a text \<open>t\<close> that is not JSON.
\<close>

datatype stored_item = Json jvalue | Garbage string

definition truthy :: "stored_item \<Rightarrow> bool" where
  "truthy item = (case item of Json v \<Rightarrow> True | Garbage t \<Rightarrow> t \<noteq> [])"

text \<open>\<open>if (stored)\<close> on what \<open>getItem\<close> resolves to: \<open>null\<close> and the empty text are falsy.\<close>

definition truthy_item :: "stored_item option \<Rightarrow> bool" where
  "truthy_item stored = (case stored of None \<Rightarrow> False | Some item \<Rightarrow> truthy item)"

definition JSON_parse :: "stored_item \<Rightarrow> error + jvalue" where
  "JSON_parse item = (case item of Json v \<Rightarrow> Inr v | Garbage t \<Rightarrow> Inl SyntaxError)"

text \<open>\<open>rejections\<close>: whether the storage rejects the calls still to come, as \<open>faults\<close> above.\<close>

record async_storage =
  items :: "string \<rightharpoonup> stored_item"
  rejections :: "bool list"

definition next_call_rejected :: "async_storage \<Rightarrow> bool" where
  "next_call_rejected st = (case rejections st of [] \<Rightarrow> False | rejected # _ \<Rightarrow> rejected)"

definition getItem :: "string \<Rightarrow> async_storage \<Rightarrow> (error + stored_item option) \<times> async_storage" where
  "getItem key st =
     (let st0 = st\<lparr>rejections := tl (rejections st)\<rparr>
      in if next_call_rejected st then (Inl StorageError, st0) else (Inr (items st key), st0))"

definition setItem :: "string \<Rightarrow> stored_item \<Rightarrow> async_storage \<Rightarrow> (error + unit) \<times> async_storage" where
  "setItem key item st =
     (let st0 = st\<lparr>rejections := tl (rejections st)\<rparr>
      in if next_call_rejected st then (Inl StorageError, st0)
         else (Inr (), st0\<lparr>items := (items st0)(key \<mapsto> item)\<rparr>))"

section \<open>The settings store: hook \<open>useSettings\<close>\<close>

definition DEFAULT_SETTINGS :: object where
  "DEFAULT_SETTINGS =
     [(''homepage'', JStr ''https://www.google.com''),
      (''searchEngine'', JStr ''Google''),
      (''privateBrowsing'', JBool False),
      (''blockPopups'', JBool True),
      (''clearDataOnExit'', JBool False),
      (''darkMode'', JBool False),
      (''showStatusBar'', JBool True),
      (''javascriptEnabled'', JBool True)]"

definition SETTINGS_KEY :: string where
  "SETTINGS_KEY = ''@koralai_settings''"

datatype settings_effect =
    SetSettings object
  | SetLoading bool
  | SetItem_settings stored_item

text \<open>
  \<open>settings\<close> and \<open>loading\<close> are the state variables as the running closure reads them;
  \<open>settings_next\<close> and \<open>loading_next\<close> are the values last given to \<open>setSettings\<close> and
  \<open>setLoading\<close>, which the next render shows. \<open>effects\<close> lists the state updates and the
  storage writes in the order the hook issues them.
\<close>

record settings_hook =
  settings :: object
  settings_next :: object
  loading :: bool
  loading_next :: bool
  storage :: async_storage
  effects :: "settings_effect list"

definition useSettings :: "async_storage \<Rightarrow> settings_hook" where
  "useSettings st =
     \<lparr>settings = DEFAULT_SETTINGS, settings_next = DEFAULT_SETTINGS,
      loading = True, loading_next = True, storage = st, effects = []\<rparr>"

definition setSettings :: "object \<Rightarrow> settings_hook \<Rightarrow> settings_hook" where
  "setSettings v s = s\<lparr>settings_next := v, effects := effects s @ [SetSettings v]\<rparr>"

definition setLoading :: "bool \<Rightarrow> settings_hook \<Rightarrow> settings_hook" where
  "setLoading v s = s\<lparr>loading_next := v, effects := effects s @ [SetLoading v]\<rparr>"

definition saveSettingsToStorage :: "object \<Rightarrow> settings_hook \<Rightarrow> (error + unit) \<times> settings_hook" where
  "saveSettingsToStorage newSettings s =
     (let item = Json (JObj newSettings);
          s1 = s\<lparr>effects := effects s @ [SetItem_settings item]\<rparr>
      in (case setItem SETTINGS_KEY item (storage s1) of
            (Inl e, st) \<Rightarrow> (Inl FailedToSaveSettings, s1\<lparr>storage := st\<rparr>)
          | (Inr _, st) \<Rightarrow> (Inr (), s1\<lparr>storage := st\<rparr>)))"

definition loadSettings :: "settings_hook \<Rightarrow> settings_hook" where
  "loadSettings s =
     setLoading False
       (case getItem SETTINGS_KEY (storage s) of
          (Inl e, st) \<Rightarrow> setSettings DEFAULT_SETTINGS (s\<lparr>storage := st\<rparr>)
        | (Inr storedSettings, st) \<Rightarrow>
            (let s1 = s\<lparr>storage := st\<rparr>
             in (case (if truthy_item storedSettings then storedSettings else None) of
                   Some item \<Rightarrow>
                     (case JSON_parse item of
                        Inl e \<Rightarrow> setSettings DEFAULT_SETTINGS s1
                      | Inr parsed \<Rightarrow> setSettings (spread DEFAULT_SETTINGS (own_properties parsed)) s1)
                 | None \<Rightarrow>
                     (case saveSettingsToStorage DEFAULT_SETTINGS s1 of
                        (Inl e, s2) \<Rightarrow> setSettings DEFAULT_SETTINGS s2
                      | (Inr _, s2) \<Rightarrow> s2))))"

definition updateSettings :: "object \<Rightarrow> settings_hook \<Rightarrow> (error + unit) \<times> settings_hook" where
  "updateSettings newSettings s =
     (let updatedSettings = spread (settings s) newSettings
      in (case saveSettingsToStorage updatedSettings s of
            (Inl e, s1) \<Rightarrow> (Inl e, s1)
          | (Inr _, s1) \<Rightarrow> (Inr (), setSettings updatedSettings s1)))"

definition resetSettings :: "settings_hook \<Rightarrow> (error + unit) \<times> settings_hook" where
  "resetSettings s =
     (case saveSettingsToStorage DEFAULT_SETTINGS s of
        (Inl e, s1) \<Rightarrow> (Inl e, s1)
      | (Inr _, s1) \<Rightarrow> (Inr (), setSettings DEFAULT_SETTINGS s1))"

text \<open>The keys of an object.\<close>

definition object_keys :: "object \<Rightarrow> string set" where
  "object_keys obj = fst ` set obj"

section \<open>The activity and module feedback log: hook \<open>useModuleFeedback\<close>\<close>

record ActivityLog =
  a_id :: string
  a_timestamp :: string
  activity_type :: string
  content :: string
  a_module :: "string option"

datatype feedback_type = SUCCESS | ERROR | WARNING | INFO

record ModuleFeedback =
  f_module_name :: string
  feedback_type :: feedback_type
  message :: string
  f_timestamp :: string
  file_reference :: "string option"

definition ACTIVITY_LOG_KEY :: string where
  "ACTIVITY_LOG_KEY = ''@koralai_activity_log''"

definition MODULE_FEEDBACK_KEY :: string where
  "MODULE_FEEDBACK_KEY = ''@koralai_module_feedback''"

text \<open>\<open>JSON.stringify\<close> of the two lists; a field that is \<open>undefined\<close> is left out.\<close>

definition optional_field :: "string \<Rightarrow> string option \<Rightarrow> (string \<times> jvalue) list" where
  "optional_field k v = (case v of None \<Rightarrow> [] | Some t \<Rightarrow> [(k, JStr t)])"

definition activity_json :: "ActivityLog \<Rightarrow> jvalue" where
  "activity_json a =
     JObj ([(''id'', JStr (a_id a)), (''timestamp'', JStr (a_timestamp a)),
            (''activity_type'', JStr (activity_type a)), (''content'', JStr (content a))]
           @ optional_field ''module'' (a_module a))"

definition feedback_type_name :: "feedback_type \<Rightarrow> string" where
  "feedback_type_name t =
     (case t of SUCCESS \<Rightarrow> ''SUCCESS'' | ERROR \<Rightarrow> ''ERROR'' | WARNING \<Rightarrow> ''WARNING'' | INFO \<Rightarrow> ''INFO'')"

definition feedback_json :: "ModuleFeedback \<Rightarrow> jvalue" where
  "feedback_json f =
     JObj ([(''module_name'', JStr (f_module_name f)),
            (''feedback_type'', JStr (feedback_type_name (feedback_type f))),
            (''message'', JStr (message f)), (''timestamp'', JStr (f_timestamp f))]
           @ optional_field ''file_reference'' (file_reference f))"

datatype feedback_effect =
    SetActivityLog "ActivityLog list"
  | SetModuleFeedback "ModuleFeedback list"
  | SetItem_log string stored_item

text \<open>
  \<open>activityLog\<close> and \<open>moduleFeedback\<close> are the state variables as the running closure reads
  them: constants of the render that made the closure. \<open>activityLog_next\<close> and
  \<open>moduleFeedback_next\<close> are the values last given to \<open>setActivityLog\<close> and
  \<open>setModuleFeedback\<close>: the in-memory log that the next render shows. \<open>log_effects\<close> lists the
  state updates and the storage writes in the order the hook issues them.
\<close>

record feedback_hook =
  activityLog :: "ActivityLog list"
  activityLog_next :: "ActivityLog list"
  moduleFeedback :: "ModuleFeedback list"
  moduleFeedback_next :: "ModuleFeedback list"
  log_storage :: async_storage
  log_effects :: "feedback_effect list"

definition setActivityLog :: "ActivityLog list \<Rightarrow> feedback_hook \<Rightarrow> feedback_hook" where
  "setActivityLog v s = s\<lparr>activityLog_next := v, log_effects := log_effects s @ [SetActivityLog v]\<rparr>"

definition setModuleFeedback :: "ModuleFeedback list \<Rightarrow> feedback_hook \<Rightarrow> feedback_hook" where
  "setModuleFeedback v s =
     s\<lparr>moduleFeedback_next := v, log_effects := log_effects s @ [SetModuleFeedback v]\<rparr>"

text \<open>
  \<open>await AsyncStorage.setItem(key, item)\<close> inside the \<open>try\<close> of a logging function: a
  rejection is caught and logged to the console, nothing else happens.
\<close>

definition setItem_logged :: "string \<Rightarrow> stored_item \<Rightarrow> feedback_hook \<Rightarrow> feedback_hook" where
  "setItem_logged key item s =
     (let s1 = s\<lparr>log_effects := log_effects s @ [SetItem_log key item]\<rparr>
      in (case setItem key item (log_storage s1) of (_, st) \<Rightarrow> s1\<lparr>log_storage := st\<rparr>))"

text \<open>
  \<open>Date_now\<close> is the number \<open>Date.now()\<close> returns at the call and \<open>isoString\<close> the text
  \<open>new Date().toISOString()\<close> returns.
\<close>

definition newActivity :: "int \<Rightarrow> string \<Rightarrow> string \<Rightarrow> string \<Rightarrow> string option \<Rightarrow> ActivityLog" where
  "newActivity Date_now isoString activityType cont modul =
     \<lparr>a_id = decimal Date_now, a_timestamp = isoString, activity_type = activityType,
      content = cont, a_module = modul\<rparr>"

definition logActivity ::
  "int \<Rightarrow> string \<Rightarrow> string \<Rightarrow> string \<Rightarrow> string option \<Rightarrow> feedback_hook \<Rightarrow> feedback_hook" where
  "logActivity Date_now isoString activityType cont modul s =
     (let updatedLog = take 1000 (newActivity Date_now isoString activityType cont modul # activityLog s)
      in setItem_logged ACTIVITY_LOG_KEY (Json (JArr (map activity_json updatedLog)))
           (setActivityLog updatedLog s))"

definition newFeedback ::
  "string \<Rightarrow> string \<Rightarrow> feedback_type \<Rightarrow> string \<Rightarrow> string option \<Rightarrow> ModuleFeedback" where
  "newFeedback isoString moduleName feedbackType msg fileReference =
     \<lparr>f_module_name = moduleName, feedback_type = feedbackType, message = msg,
      f_timestamp = isoString, file_reference = fileReference\<rparr>"

definition addModuleFeedback ::
  "string \<Rightarrow> string \<Rightarrow> feedback_type \<Rightarrow> string \<Rightarrow> string option \<Rightarrow> feedback_hook \<Rightarrow> feedback_hook" where
  "addModuleFeedback isoString moduleName feedbackType msg fileReference s =
     (let updatedFeedback =
            take 500 (newFeedback isoString moduleName feedbackType msg fileReference # moduleFeedback s)
      in setItem_logged MODULE_FEEDBACK_KEY (Json (JArr (map feedback_json updatedFeedback)))
           (setModuleFeedback updatedFeedback s))"

text \<open>\<open>s.split(c)\<close> for a one-character separator, and an array element in a template literal.\<close>

fun split :: "char \<Rightarrow> string \<Rightarrow> string list" where
  "split c [] = [[]]"
| "split c (x # xs) =
     (if x = c then [] # split c xs
      else (case split c xs of [] \<Rightarrow> [[x]] | p # ps \<Rightarrow> (x # p) # ps))"







section \<open>The browser screen: \<open>handleUrlSubmit\<close>\<close>







text \<open>
  A full table for the examples: 1000 rows with ids and timestamps \<open>1\<close> to \<open>1000\<close> and
  pairwise different URLs.
\<close>

definition full_store :: page_store where
  "full_store =
     \<lparr>db = True, bookmarks = [], bookmarks_seq = 0,
      history = map (\<lambda>i. \<lparr>h_id = i, h_url = replicate i CHR ''a'', h_title = [], visited_at = int i\<rparr>)
                  [1..<1001],
      history_seq = 1000, faults = []\<rparr>"

section \<open>Properties of the page store\<close>

lemma no_faults_upd: "faults s = [] \<Longrightarrow> s\<lparr>faults := []\<rparr> = s"
  by (cases s) simp

lemma run_statement_no_faults:
  "faults s = [] \<Longrightarrow> run_statement stmt s = (case stmt s of (r, s') \<Rightarrow> (Inr r, s'))"
  by (simp add: run_statement_def next_statement_rejected_def no_faults_upd)

lemma runAsync_no_faults: "faults s = [] \<Longrightarrow> runAsync upd s = (Inr (), upd s)"
  by (simp add: runAsync_def run_statement_no_faults)

lemma faults_statements [simp]:
  "faults (delete_history_by_url u s) = faults s"
  "faults (insert_history now u ttl s) = faults s"
  "faults (delete_history_beyond_limit s) = faults s"
  "faults (insert_bookmark now u ttl s) = faults s"
  by (simp_all add: delete_history_by_url_def insert_history_def delete_history_beyond_limit_def
      insert_bookmark_def Let_def)

lemma db_statements [simp]:
  "db (delete_history_by_url u s) = db s"
  "db (insert_history now u ttl s) = db s"
  "db (delete_history_beyond_limit s) = db s"
  by (simp_all add: delete_history_by_url_def insert_history_def delete_history_beyond_limit_def Let_def)

lemma addToHistory_no_faults:
  "db s \<Longrightarrow> faults s = [] \<Longrightarrow>
     addToHistory now u ttl s =
       (Inr (), delete_history_beyond_limit (insert_history now u ttl (delete_history_by_url u s)))"
  by (simp add: addToHistory_def runAsync_no_faults)

lemma fold_max_ge: "a \<le> fold max xs (a::nat)"
  by (induction xs arbitrary: a) (auto intro: order_trans[OF max.cobounded2])

lemma fold_max_mem: "x \<in> set xs \<Longrightarrow> x \<le> fold max xs (a::nat)"
proof (induction xs arbitrary: a)
  case Nil
  then show ?case by simp
next
  case (Cons y ys)
  show ?case
  proof (cases "x = y")
    case True
    have "max y a \<le> fold max ys (max y a)" by (rule fold_max_ge)
    with True show ?thesis by simp
  next
    case False
    with Cons show ?thesis by simp
  qed
qed

lemma next_rowid_fresh: "i \<in> set ids \<Longrightarrow> i < next_rowid seq ids"
  by (simp add: next_rowid_def fold_max_mem less_Suc_eq_le)

lemma set_take_drop: "set (take n xs) \<union> set (drop n xs) = set xs"
  by (metis append_take_drop_id set_append)

lemma sorted_take_drop:
  fixes f :: "'a \<Rightarrow> int"
  assumes "sorted (map f S)" and a: "a \<in> set (take n S)" and b: "b \<in> set (drop n S)"
  shows "f a \<le> f b"
proof -
  have "sorted (map f (take n S) @ map f (drop n S))"
    using assms(1) by (metis append_take_drop_id map_append)
  with a b show ?thesis by (auto simp: sorted_append)
qed


text \<open>The row with the strictly largest key is the one left out when one row must go.\<close>

lemma take_sort_key_excludes:
  fixes f :: "'a \<Rightarrow> int"
  assumes d: "distinct xs" and e: "e \<in> set xs"
    and largest: "\<forall>r\<in>set xs. r \<noteq> e \<longrightarrow> f r < f e" and n: "n < length xs"
  shows "e \<notin> set (take n (sort_key f xs))"
proof
  let ?S = "sort_key f xs"
  assume in_take: "e \<in> set (take n ?S)"
  have "n < length ?S" using n by simp
  then have z: "?S ! n \<in> set (drop n ?S)"
    by (metis Cons_nth_drop_Suc list.set_intros(1))
  then have "?S ! n \<in> set ?S" by (meson in_set_dropD)
  then have zx: "?S ! n \<in> set xs" by simp
  have "sorted (map f ?S)" by simp
  then have "f e \<le> f (?S ! n)" using in_take z by (rule sorted_take_drop)
  with largest zx have "?S ! n = e" by force
  with z have "e \<in> set (drop n ?S)" by simp
  moreover have "set (take n ?S) \<inter> set (drop n ?S) = {}"
    using d by (simp add: set_take_disj_set_drop_if_distinct)
  ultimately show False using in_take by blast
qed

text \<open>Deleting by \<open>id NOT IN\<close> keeps the first \<open>n\<close> rows of the ordering when ids are unique.\<close>

lemma keep_by_id_set:
  assumes "distinct (map h_id rows)" and "set S = set rows"
  shows "set (filter (\<lambda>r. h_id r \<in> set (map h_id (take n S))) rows) = set (take n S)"
proof -
  have inj: "inj_on h_id (set rows)" using assms(1) by (simp add: distinct_map)
  have sub: "set (take n S) \<subseteq> set rows" using assms(2) by (metis set_take_subset)
  show ?thesis
  proof (intro equalityI subsetI)
    fix r assume "r \<in> set (filter (\<lambda>r. h_id r \<in> set (map h_id (take n S))) rows)"
    then have r: "r \<in> set rows" and "h_id r \<in> h_id ` set (take n S)" by auto
    then obtain r' where r': "r' \<in> set (take n S)" and "h_id r = h_id r'" by auto
    with inj r sub have "r = r'" by (auto dest: inj_onD)
    with r' show "r \<in> set (take n S)" by simp
  next
    fix r assume "r \<in> set (take n S)"
    with sub show "r \<in> set (filter (\<lambda>r. h_id r \<in> set (map h_id (take n S))) rows)" by auto
  qed
qed

lemma keep_by_id_length:
  assumes d: "distinct (map h_id rows)"
  shows "length (filter (\<lambda>r. h_id r \<in> set (map h_id (take n (sort_key f rows)))) rows)
         = min n (length rows)"
proof -
  let ?S = "sort_key f rows"
  let ?K = "filter (\<lambda>r. h_id r \<in> set (map h_id (take n ?S))) rows"
  have dr: "distinct rows" using d by (simp add: distinct_map)
  then have "distinct ?K" by simp
  then have "length ?K = card (set ?K)" by (rule distinct_card[symmetric])
  also have "set ?K = set (take n ?S)" using d by (rule keep_by_id_set) simp
  also have "card (set (take n ?S)) = length (take n ?S)"
    using dr by (intro distinct_card distinct_take) simp
  finally show ?thesis by (simp add: min.commute)
qed

lemma history_delete_beyond_limit:
  "history (delete_history_beyond_limit s) =
     filter (\<lambda>r. h_id r \<in> set (map h_id (take 1000 (sort_key (\<lambda>r. - visited_at r) (history s))))) (history s)"
  by (simp add: delete_history_beyond_limit_def order_by_visited_at_desc_def)

lemma history_insert:
  "history (insert_history now u ttl s) =
     history s @ [\<lparr>h_id = next_rowid (history_seq s) (map h_id (history s)), h_url = u,
                   h_title = ttl, visited_at = now\<rparr>]"
  by (simp add: insert_history_def Let_def)

lemma history_delete_by_url:
  "history (delete_history_by_url u s) = filter (\<lambda>r. h_url r \<noteq> u) (history s)"
  by (simp add: delete_history_by_url_def)

lemma history_seq_delete_by_url: "history_seq (delete_history_by_url u s) = history_seq s"
  by (simp add: delete_history_by_url_def)

lemma next_rowid_notin: "next_rowid seq ids \<notin> set ids"
  by (metis less_irrefl next_rowid_fresh)


lemma distinct_ids_insert:
  "distinct (map h_id (history s)) \<Longrightarrow> distinct (map h_id (history (insert_history now u ttl s)))"
  using next_rowid_notin[of "history_seq s" "map h_id (history s)"] by (simp add: history_insert)

lemma distinct_ids_delete_by_url:
  "distinct (map h_id (history s)) \<Longrightarrow> distinct (map h_id (history (delete_history_by_url u s)))"
  by (simp add: history_delete_by_url distinct_map_filter)

text \<open>What the cap leaves, for a table with unique ids.\<close>

lemma cap_set:
  "distinct (map h_id (history s)) \<Longrightarrow>
     set (history (delete_history_beyond_limit s))
       = set (take 1000 (sort_key (\<lambda>r. - visited_at r) (history s)))"
  unfolding history_delete_beyond_limit by (rule keep_by_id_set) simp_all

lemma cap_length:
  "distinct (map h_id (history s)) \<Longrightarrow>
     length (history (delete_history_beyond_limit s)) = min 1000 (length (history s))"
  unfolding history_delete_beyond_limit by (rule keep_by_id_length)

lemma cap_oldest_first:
  assumes d: "distinct (map h_id (history s))"
    and kept: "kept \<in> set (history (delete_history_beyond_limit s))"
    and gone: "gone \<in> set (history s)" "gone \<notin> set (history (delete_history_beyond_limit s))"
  shows "visited_at gone \<le> visited_at kept"
proof -
  let ?S = "sort_key (\<lambda>r. - visited_at r) (history s)"
  have k: "kept \<in> set (take 1000 ?S)" using kept cap_set[OF d] by simp
  have "gone \<notin> set (take 1000 ?S)" using gone(2) cap_set[OF d] by simp
  moreover have "gone \<in> set (take 1000 ?S) \<union> set (drop 1000 ?S)"
    using gone(1) by (simp only: set_take_drop set_sort)
  ultimately have g: "gone \<in> set (drop 1000 ?S)" by blast
  have "sorted (map (\<lambda>r. - visited_at r) ?S)" by simp
  then have "- visited_at kept \<le> - visited_at gone" using k g by (rule sorted_take_drop)
  then show ?thesis by simp
qed






lemma sorted_wrt_hd_less:
  "sorted_wrt (<) (map f xs) \<Longrightarrow> r \<in> set xs \<Longrightarrow> r \<noteq> hd xs \<Longrightarrow> f (hd xs) < f r"
  by (cases xs) auto


text \<open>
  C10: \<open>getHistory\<close> never fails: before the database is initialized, and when the query
  is rejected, it returns the empty list. \<open>addToHistory\<close> before initialization does nothing
  and reports nothing, while \<open>removeHistoryItem\<close> and \<open>clearHistory\<close> raise in that state.
\<close>

theorem getHistory_never_fails:
  "(\<exists>rows. fst (getHistory s) = Inr rows)
   \<and> (\<not> db s \<longrightarrow> getHistory s = (Inr [], s))
   \<and> (db s \<and> next_statement_rejected s \<longrightarrow> fst (getHistory s) = Inr [])
   \<and> (\<not> db s \<longrightarrow> addToHistory now url ttl s = (Inr (), s))
   \<and> (\<not> db s \<longrightarrow> removeHistoryItem i s = (Inl DatabaseNotInitialized, s)
                 \<and> clearHistory s = (Inl DatabaseNotInitialized, s))"
  by (auto simp: getHistory_def addToHistory_def removeHistoryItem_def clearHistory_def
      getAllAsync_def run_statement_def split: prod.splits sum.splits)

theorem getHistory_never_fails_witness:
  "getHistory \<lparr>db = False, bookmarks = [], bookmarks_seq = 0, history = [], history_seq = 0, faults = []\<rparr>
     = (Inr [], \<lparr>db = False, bookmarks = [], bookmarks_seq = 0, history = [], history_seq = 0, faults = []\<rparr>)
   \<and> addToHistory 5 ''https://example.com'' ''Example''
       \<lparr>db = False, bookmarks = [], bookmarks_seq = 0, history = [], history_seq = 0, faults = []\<rparr>
     = (Inr (), \<lparr>db = False, bookmarks = [], bookmarks_seq = 0, history = [], history_seq = 0, faults = []\<rparr>)
   \<and> removeHistoryItem 1
       \<lparr>db = False, bookmarks = [], bookmarks_seq = 0, history = [], history_seq = 0, faults = []\<rparr>
     = (Inl DatabaseNotInitialized,
        \<lparr>db = False, bookmarks = [], bookmarks_seq = 0, history = [], history_seq = 0, faults = []\<rparr>)
   \<and> clearHistory
       \<lparr>db = False, bookmarks = [], bookmarks_seq = 0, history = [], history_seq = 0, faults = []\<rparr>
     = (Inl DatabaseNotInitialized,
        \<lparr>db = False, bookmarks = [], bookmarks_seq = 0, history = [], history_seq = 0, faults = []\<rparr>)
   \<and> next_statement_rejected
       \<lparr>db = True, bookmarks = [], bookmarks_seq = 0,
        history = [\<lparr>h_id = 1, h_url = ''https://example.com'', h_title = ''Example'', visited_at = 7\<rparr>],
        history_seq = 1, faults = [True]\<rparr>
   \<and> fst (getHistory
       \<lparr>db = True, bookmarks = [], bookmarks_seq = 0,
        history = [\<lparr>h_id = 1, h_url = ''https://example.com'', h_title = ''Example'', visited_at = 7\<rparr>],
        history_seq = 1, faults = [True]\<rparr>) = Inr []"
  using getHistory_never_fails
      [of "\<lparr>db = False, bookmarks = [], bookmarks_seq = 0, history = [], history_seq = 0, faults = []\<rparr>"
          5 "''https://example.com''" "''Example''" 1]
    getHistory_never_fails
      [of "\<lparr>db = True, bookmarks = [], bookmarks_seq = 0,
            history = [\<lparr>h_id = 1, h_url = ''https://example.com'', h_title = ''Example'', visited_at = 7\<rparr>],
            history_seq = 1, faults = [True]\<rparr>"]
  by (simp add: next_statement_rejected_def)



text \<open>
  C2: \<open>addToHistory\<close> never leaves more than 1000 rows, and a row of another URL that it
  removes is no newer than any row it leaves. From 1000 rows with strictly increasing
  timestamps, a call with a fresh URL and a later timestamp than the earliest row's
  leaves exactly 1000 rows, and the earliest row is gone.
\<close>

theorem addToHistory_cap:
  assumes ready: "db s" and ok: "faults s = []" and ids: "distinct (map h_id (history s))"
  shows "length (history (snd (addToHistory now u ttl s))) \<le> 1000
       \<and> (\<forall>gone\<in>set (history s). \<forall>kept\<in>set (history (snd (addToHistory now u ttl s))).
            h_url gone \<noteq> u \<and> gone \<notin> set (history (snd (addToHistory now u ttl s)))
              \<longrightarrow> visited_at gone \<le> visited_at kept)
       \<and> (length (history s) = 1000 \<and> u \<notin> h_url ` set (history s)
            \<and> sorted_wrt (<) (map visited_at (history s)) \<and> visited_at (hd (history s)) < now
              \<longrightarrow> length (history (snd (addToHistory now u ttl s))) = 1000
                  \<and> hd (history s) \<notin> set (history (snd (addToHistory now u ttl s))))"
proof -
  define m where "m = insert_history now u ttl (delete_history_by_url u s)"
  define x where "x = \<lparr>h_id = next_rowid (history_seq s) (map h_id (filter (\<lambda>r. h_url r \<noteq> u) (history s))),
                       h_url = u, h_title = ttl, visited_at = now\<rparr>"
  have a: "snd (addToHistory now u ttl s) = delete_history_beyond_limit m"
    using ready ok by (simp add: addToHistory_no_faults m_def)
  have hm: "history m = filter (\<lambda>r. h_url r \<noteq> u) (history s) @ [x]"
    by (simp add: m_def x_def history_insert history_delete_by_url history_seq_delete_by_url)
  have dm: "distinct (map h_id (history m))"
    unfolding m_def using ids by (intro distinct_ids_insert distinct_ids_delete_by_url)
  have c1: "length (history (delete_history_beyond_limit m)) \<le> 1000"
    by (simp add: cap_length[OF dm])
  have c2: "visited_at gone \<le> visited_at kept"
    if "gone \<in> set (history s)" "kept \<in> set (history (delete_history_beyond_limit m))"
      "h_url gone \<noteq> u" "gone \<notin> set (history (delete_history_beyond_limit m))" for gone kept
  proof -
    have "gone \<in> set (history m)" using that(1,3) by (simp add: hm)
    with dm that(2) show ?thesis using that(4) by (rule cap_oldest_first)
  qed
  have c3: "length (history (delete_history_beyond_limit m)) = 1000
            \<and> hd (history s) \<notin> set (history (delete_history_beyond_limit m))"
    if len: "length (history s) = 1000" and fresh: "u \<notin> h_url ` set (history s)"
      and inc: "sorted_wrt (<) (map visited_at (history s))" and later: "visited_at (hd (history s)) < now"
  proof -
    have "filter (\<lambda>r. h_url r \<noteq> u) (history s) = history s"
      using fresh by (auto simp: filter_id_conv)
    with hm have hm': "history m = history s @ [x]" by simp
    have ne: "history s \<noteq> []" using len by auto
    have l: "length (history (delete_history_beyond_limit m)) = 1000"
      by (simp add: cap_length[OF dm] hm' len)
    have "distinct (history m)" using dm by (simp add: distinct_map)
    moreover have "hd (history s) \<in> set (history m)" using ne by (simp add: hm')
    moreover have "\<forall>r\<in>set (history m). r \<noteq> hd (history s) \<longrightarrow> - visited_at r < - visited_at (hd (history s))"
      using sorted_wrt_hd_less[OF inc] later by (auto simp: hm' x_def)
    moreover have "1000 < length (history m)" by (simp add: hm' len)
    ultimately have "hd (history s) \<notin> set (take 1000 (sort_key (\<lambda>r. - visited_at r) (history m)))"
      by (rule take_sort_key_excludes)
    then show ?thesis using l by (simp add: cap_set[OF dm])
  qed
  show ?thesis unfolding a using c1 c2 c3 by blast
qed

theorem addToHistory_cap_witness:
  "db full_store \<and> faults full_store = [] \<and> distinct (map h_id (history full_store))
   \<and> length (history full_store) = 1000
   \<and> ''https://example.com'' \<notin> h_url ` set (history full_store)
   \<and> sorted_wrt (<) (map visited_at (history full_store))
   \<and> visited_at (hd (history full_store)) < 2000
   \<and> length (history (snd (addToHistory 2000 ''https://example.com'' ''Example'' full_store))) = 1000
   \<and> hd (history full_store)
        \<notin> set (history (snd (addToHistory 2000 ''https://example.com'' ''Example'' full_store)))
   \<and> h_id (hd (history full_store)) = 1"
proof -
  have h1: "db full_store" and h2: "faults full_store = []"
    by (simp_all add: full_store_def)
  have h3: "distinct (map h_id (history full_store))"
    by (simp add: full_store_def o_def)
  have h4: "length (history full_store) = 1000"
    by (simp add: full_store_def)
  have h5: "''https://example.com'' \<notin> h_url ` set (history full_store)"
    by (auto simp: full_store_def Cons_replicate_eq)
  have h6: "sorted_wrt (<) (map visited_at (history full_store))"
    by (simp add: full_store_def o_def sorted_wrt_map)
  have hd: "hd (history full_store) = \<lparr>h_id = 1, h_url = replicate 1 CHR ''a'', h_title = [], visited_at = 1\<rparr>"
    by (simp add: full_store_def hd_map)
  have h7: "visited_at (hd (history full_store)) < 2000"
    by (simp add: hd)
  show ?thesis
    using addToHistory_cap [OF h1 h2 h3, of 2000 "''https://example.com''" "''Example''"]
      h1 h2 h3 h4 h5 h6 h7 by (simp add: hd)
qed

text \<open>
  C4: after a successful \<open>addBookmark\<close> for a URL \<open>u\<close> with title \<open>t\<close>, a second
  \<open>addBookmark\<close> for \<open>u\<close> whose lookup the engine runs fails with the duplicate condition
  and leaves the bookmarks as they were: exactly one bookmark for \<open>u\<close>, with title \<open>t\<close>.
\<close>

theorem addBookmark_duplicate:
  assumes first: "addBookmark now1 u t s = (Inr (), s1)" and run: "\<not> next_statement_rejected s1"
  shows "fst (addBookmark now2 u t2 s1) = Inl BookmarkAlreadyExists
       \<and> bookmarks (snd (addBookmark now2 u t2 s1)) = bookmarks s1
       \<and> (\<exists>i. filter (\<lambda>b. b_url b = u) (bookmarks s1)
                = [\<lparr>b_id = i, b_url = u, b_title = t, created_at = now1\<rparr>])"
  using first run
  by (auto simp: addBookmark_def getFirstAsync_def runAsync_def run_statement_def
      select_bookmark_by_url_def insert_bookmark_def Let_def filter_empty_conv
      split: if_splits prod.splits sum.splits option.splits list.splits)

theorem addBookmark_duplicate_witness:
  "addBookmark 10 ''https://example.com'' ''Example''
      \<lparr>db = True, bookmarks = [], bookmarks_seq = 0, history = [], history_seq = 0, faults = []\<rparr>
     = (Inr (), \<lparr>db = True,
                 bookmarks = [\<lparr>b_id = 1, b_url = ''https://example.com'', b_title = ''Example'', created_at = 10\<rparr>],
                 bookmarks_seq = 1, history = [], history_seq = 0, faults = []\<rparr>)
   \<and> \<not> next_statement_rejected
        \<lparr>db = True,
         bookmarks = [\<lparr>b_id = 1, b_url = ''https://example.com'', b_title = ''Example'', created_at = 10\<rparr>],
         bookmarks_seq = 1, history = [], history_seq = 0, faults = []\<rparr>
   \<and> fst (addBookmark 20 ''https://example.com'' ''Other title''
        \<lparr>db = True,
         bookmarks = [\<lparr>b_id = 1, b_url = ''https://example.com'', b_title = ''Example'', created_at = 10\<rparr>],
         bookmarks_seq = 1, history = [], history_seq = 0, faults = []\<rparr>) = Inl BookmarkAlreadyExists
   \<and> bookmarks (snd (addBookmark 20 ''https://example.com'' ''Other title''
        \<lparr>db = True,
         bookmarks = [\<lparr>b_id = 1, b_url = ''https://example.com'', b_title = ''Example'', created_at = 10\<rparr>],
         bookmarks_seq = 1, history = [], history_seq = 0, faults = []\<rparr>))
     = [\<lparr>b_id = 1, b_url = ''https://example.com'', b_title = ''Example'', created_at = 10\<rparr>]"
proof -
  have first: "addBookmark 10 ''https://example.com'' ''Example''
      \<lparr>db = True, bookmarks = [], bookmarks_seq = 0, history = [], history_seq = 0, faults = []\<rparr>
     = (Inr (), \<lparr>db = True,
                 bookmarks = [\<lparr>b_id = 1, b_url = ''https://example.com'', b_title = ''Example'', created_at = 10\<rparr>],
                 bookmarks_seq = 1, history = [], history_seq = 0, faults = []\<rparr>)"
    by (simp add: addBookmark_def getFirstAsync_def runAsync_def run_statement_def
        next_statement_rejected_def select_bookmark_by_url_def insert_bookmark_def next_rowid_def)
  have run: "\<not> next_statement_rejected
        \<lparr>db = True,
         bookmarks = [\<lparr>b_id = 1, b_url = ''https://example.com'', b_title = ''Example'', created_at = 10\<rparr>],
         bookmarks_seq = 1, history = [], history_seq = 0, faults = []\<rparr>"
    by (simp add: next_statement_rejected_def)
  show ?thesis
    using first run addBookmark_duplicate [OF first run, of 20 "''Other title''"] by simp
qed

section \<open>Properties of the history view organizer\<close>









text \<open>What \<open>includesSub\<close> computes: \<open>sub\<close> is a contiguous part of \<open>s\<close>.\<close>

lemma includesSub_iff: "includesSub s sub \<longleftrightarrow> (\<exists>p q. s = p @ sub @ q)"
proof (induction s)
  case Nil
  then show ?case by simp
next
  case (Cons c cs)
  have "startsWith (c # cs) sub \<longleftrightarrow> (\<exists>q. c # cs = sub @ q)"
    unfolding startsWith_def by (metis append_eq_conv_conj append_take_drop_id)
  moreover have "(\<exists>p q. c # cs = p @ sub @ q) \<longleftrightarrow> (\<exists>q. c # cs = sub @ q) \<or> (\<exists>p q. cs = p @ sub @ q)"
    (is "?L \<longleftrightarrow> ?A \<or> ?B")
  proof
    assume ?L
    then obtain p q where pq: "c # cs = p @ sub @ q" by blast
    show "?A \<or> ?B"
    proof (cases p)
      case Nil
      with pq show ?thesis by auto
    next
      case (Cons a p')
      with pq have "cs = p' @ sub @ q" by simp
      then show ?thesis by blast
    qed
  next
    assume "?A \<or> ?B"
    then show ?L
    proof
      assume ?A then show ?L by (metis append_Nil)
    next
      assume ?B
      then obtain p q where "cs = p @ sub @ q" by blast
      then have "c # cs = (c # p) @ sub @ q" by simp
      then show ?L by blast
    qed
  qed
  ultimately show ?case using Cons.IH by simp
qed







section \<open>Properties of the browser screen\<close>





section \<open>Properties of the settings store\<close>

lemma map_of_spread: "map_of (spread target props) = map_of target ++ map_of (rev props)"
  unfolding spread_def
proof (induction props arbitrary: target)
  case Nil
  then show ?case by simp
next
  case (Cons p ps)
  obtain k v where p: "p = (k, v)" by (cases p)
  have "map_of (fold (\<lambda>(k, v). AList.update k v) ps (AList.update k v target))
          = map_of (AList.update k v target) ++ map_of (rev ps)"
    by (rule Cons.IH)
  also have "\<dots> = (map_of target)(k \<mapsto> v) ++ map_of (rev ps)"
    by (simp add: update_conv')
  also have "\<dots> = map_of target ++ (map_of (rev ps))(k \<mapsto> v) ++ map_of (rev ps)"
    by (rule ext) (simp add: map_add_def split: option.splits)
  finally show ?case by (simp add: p map_add_assoc) (rule ext, simp add: map_add_def split: option.splits)
qed

lemma keys_spread: "object_keys (spread target props) = object_keys target \<union> fst ` set props"
proof -
  have "dom (map_of (spread target props)) = dom (map_of target) \<union> dom (map_of (rev props))"
    by (simp add: map_of_spread Un_commute)
  then show ?thesis by (simp add: object_keys_def dom_map_of_conv_image_fst)
qed

lemma getItem_ok:
  "\<not> next_call_rejected st \<Longrightarrow> getItem key st = (Inr (items st key), st\<lparr>rejections := tl (rejections st)\<rparr>)"
  by (simp add: getItem_def)

lemma effects_setSettings [simp]: "settings_next (setSettings v s) = v"
  by (simp add: setSettings_def)

lemma settings_next_setLoading [simp]: "settings_next (setLoading b s) = settings_next s"
  by (simp add: setLoading_def)

lemma settings_next_save [simp]:
  "settings_next (snd (saveSettingsToStorage obj s)) = settings_next s"
  by (simp add: saveSettingsToStorage_def Let_def split: prod.splits sum.splits)

lemma settings_next_saveD:
  "saveSettingsToStorage obj s = (r, s') \<Longrightarrow> settings_next s' = settings_next s"
  by (metis settings_next_save snd_conv)

lemma loadSettings_parsed:
  assumes "\<not> next_call_rejected (storage s)" and "items (storage s) SETTINGS_KEY = Some (Json v)"
  shows "settings_next (loadSettings s) = spread DEFAULT_SETTINGS (own_properties v)"
  using assms
  by (simp add: loadSettings_def getItem_ok truthy_item_def truthy_def JSON_parse_def Let_def)

lemma loadSettings_defaults:
  assumes "settings_next s = DEFAULT_SETTINGS"
    and "next_call_rejected (storage s) \<or> (\<forall>v. items (storage s) SETTINGS_KEY \<noteq> Some (Json v))"
  shows "settings_next (loadSettings s) = DEFAULT_SETTINGS"
  using assms
  by (auto simp: loadSettings_def getItem_def truthy_item_def truthy_def JSON_parse_def Let_def
      dest!: settings_next_saveD
      split: prod.splits sum.splits option.splits stored_item.splits if_splits)

text \<open>
  C5, as amended: when the storage call is not rejected and the stored blob parses, the
  settings object that \<open>loadSettings\<close> publishes has the keys of the default set together
  with every key of the stored value: a stored value overrides the default of its key, a
  default fills a key that is missing from the storage, and a stored key that is not in
  the default set is kept. In every other case (the read is rejected, nothing or the empty
  text is stored, the text does not parse) the settings are the defaults.
\<close>

theorem loadSettings_merge:
  "(\<not> next_call_rejected st \<and> items st SETTINGS_KEY = Some (Json v) \<longrightarrow>
      object_keys (settings_next (loadSettings (useSettings st)))
        = object_keys DEFAULT_SETTINGS \<union> fst ` set (own_properties v)
      \<and> map_of (settings_next (loadSettings (useSettings st)))
        = map_of DEFAULT_SETTINGS ++ map_of (rev (own_properties v)))
   \<and> (next_call_rejected st \<or> (\<forall>v. items st SETTINGS_KEY \<noteq> Some (Json v)) \<longrightarrow>
      settings_next (loadSettings (useSettings st)) = DEFAULT_SETTINGS)"
proof -
  have st: "storage (useSettings st) = st" and sn: "settings_next (useSettings st) = DEFAULT_SETTINGS"
    by (simp_all add: useSettings_def)
  show ?thesis
    using loadSettings_parsed[of "useSettings st" v] loadSettings_defaults[of "useSettings st"]
    by (simp add: st sn keys_spread map_of_spread)
qed

theorem loadSettings_merge_witness:
  "\<not> next_call_rejected
        \<lparr>items = [SETTINGS_KEY \<mapsto> Json (JObj [(''homepage'', JStr ''https://example.com'')])],
         rejections = []\<rparr>
   \<and> map_of (settings_next (loadSettings (useSettings
        \<lparr>items = [SETTINGS_KEY \<mapsto> Json (JObj [(''homepage'', JStr ''https://example.com'')])],
         rejections = []\<rparr>))) ''homepage'' = Some (JStr ''https://example.com'')
   \<and> map_of (settings_next (loadSettings (useSettings
        \<lparr>items = [SETTINGS_KEY \<mapsto> Json (JObj [(''homepage'', JStr ''https://example.com'')])],
         rejections = []\<rparr>))) ''searchEngine'' = Some (JStr ''Google'')
   \<and> object_keys (settings_next (loadSettings (useSettings
        \<lparr>items = [SETTINGS_KEY \<mapsto> Json (JObj [(''homepage'', JStr ''https://example.com'')])],
         rejections = []\<rparr>))) = object_keys DEFAULT_SETTINGS
   \<and> settings_next (loadSettings (useSettings
        \<lparr>items = [SETTINGS_KEY \<mapsto> Garbage ''{not json''], rejections = []\<rparr>)) = DEFAULT_SETTINGS"
  using loadSettings_merge
    [of "\<lparr>items = [SETTINGS_KEY \<mapsto> Json (JObj [(''homepage'', JStr ''https://example.com'')])],
          rejections = []\<rparr>" "JObj [(''homepage'', JStr ''https://example.com'')]"]
    loadSettings_merge
    [of "\<lparr>items = [SETTINGS_KEY \<mapsto> Garbage ''{not json''], rejections = []\<rparr>"]
  by (auto simp: next_call_rejected_def own_properties_def DEFAULT_SETTINGS_def object_keys_def)

text \<open>A stored key that the default set does not have is in the loaded settings object.\<close>

theorem loadSettings_unknown_key_counterexample:
  "''legacyTheme'' \<notin> object_keys DEFAULT_SETTINGS
   \<and> ''legacyTheme'' \<in> object_keys (settings_next (loadSettings (useSettings
        \<lparr>items = [SETTINGS_KEY \<mapsto> Json (JObj [(''homepage'', JStr ''https://example.com''),
                                                 (''legacyTheme'', JStr ''blue'')])],
         rejections = []\<rparr>)))"
  by (simp add: loadSettings_def useSettings_def getItem_def next_call_rejected_def truthy_item_def
      truthy_def JSON_parse_def own_properties_def spread_def setSettings_def setLoading_def
      DEFAULT_SETTINGS_def object_keys_def)

lemma setItem_ok:
  "\<not> next_call_rejected st \<Longrightarrow>
     setItem key item st = (Inr (), st\<lparr>rejections := tl (rejections st), items := (items st)(key \<mapsto> item)\<rparr>)"
  by (simp add: setItem_def)

lemma setItem_rejected:
  "next_call_rejected st \<Longrightarrow> setItem key item st = (Inl StorageError, st\<lparr>rejections := tl (rejections st)\<rparr>)"
  by (simp add: setItem_def)

text \<open>
  C8: \<open>updateSettings\<close> merges the given fields over the settings its closure holds and
  writes the whole merged object to the storage before it publishes it as the new state.
  When the storage rejects the write, the call fails with \<open>Failed to save settings\<close>, and
  neither the published settings nor the stored items change.
\<close>

theorem updateSettings_persists_then_publishes:
  "(\<not> next_call_rejected (storage s) \<longrightarrow>
      fst (updateSettings newSettings s) = Inr ()
      \<and> items (storage (snd (updateSettings newSettings s))) SETTINGS_KEY
          = Some (Json (JObj (spread (settings s) newSettings)))
      \<and> settings_next (snd (updateSettings newSettings s)) = spread (settings s) newSettings
      \<and> effects (snd (updateSettings newSettings s))
          = effects s @ [SetItem_settings (Json (JObj (spread (settings s) newSettings))),
                         SetSettings (spread (settings s) newSettings)])
   \<and> (next_call_rejected (storage s) \<longrightarrow>
      fst (updateSettings newSettings s) = Inl FailedToSaveSettings
      \<and> settings_next (snd (updateSettings newSettings s)) = settings_next s
      \<and> items (storage (snd (updateSettings newSettings s))) = items (storage s)
      \<and> effects (snd (updateSettings newSettings s))
          = effects s @ [SetItem_settings (Json (JObj (spread (settings s) newSettings)))])
   \<and> map_of (spread (settings s) newSettings) = map_of (settings s) ++ map_of (rev newSettings)"
  by (simp add: updateSettings_def saveSettingsToStorage_def setSettings_def setItem_ok
      setItem_rejected map_of_spread Let_def)

theorem updateSettings_persists_then_publishes_witness:
  "\<not> next_call_rejected (storage (useSettings \<lparr>items = Map.empty, rejections = []\<rparr>))
   \<and> updateSettings [(''homepage'', JStr ''https://example.com'')]
        (useSettings \<lparr>items = Map.empty, rejections = []\<rparr>)
      = (Inr (),
         \<lparr>settings = DEFAULT_SETTINGS,
          settings_next = AList.update ''homepage'' (JStr ''https://example.com'') DEFAULT_SETTINGS,
          loading = True, loading_next = True,
          storage = \<lparr>items = [SETTINGS_KEY \<mapsto> Json (JObj
                       (AList.update ''homepage'' (JStr ''https://example.com'') DEFAULT_SETTINGS))],
                     rejections = []\<rparr>,
          effects = [SetItem_settings (Json (JObj
                       (AList.update ''homepage'' (JStr ''https://example.com'') DEFAULT_SETTINGS))),
                     SetSettings (AList.update ''homepage'' (JStr ''https://example.com'') DEFAULT_SETTINGS)]\<rparr>)
   \<and> next_call_rejected (storage (useSettings \<lparr>items = Map.empty, rejections = [True]\<rparr>))
   \<and> fst (updateSettings [(''homepage'', JStr ''https://example.com'')]
        (useSettings \<lparr>items = Map.empty, rejections = [True]\<rparr>)) = Inl FailedToSaveSettings
   \<and> settings_next (snd (updateSettings [(''homepage'', JStr ''https://example.com'')]
        (useSettings \<lparr>items = Map.empty, rejections = [True]\<rparr>))) = DEFAULT_SETTINGS"
proof -
  have ok: "\<not> next_call_rejected (storage (useSettings \<lparr>items = Map.empty, rejections = []\<rparr>))"
    and rej: "next_call_rejected (storage (useSettings \<lparr>items = Map.empty, rejections = [True]\<rparr>))"
    by (simp_all add: useSettings_def next_call_rejected_def)
  have sp: "spread DEFAULT_SETTINGS [(''homepage'', JStr ''https://example.com'')]
            = AList.update ''homepage'' (JStr ''https://example.com'') DEFAULT_SETTINGS"
    by (simp add: spread_def)
  show ?thesis
    using ok rej
      updateSettings_persists_then_publishes
        [of "useSettings \<lparr>items = Map.empty, rejections = []\<rparr>" "[(''homepage'', JStr ''https://example.com'')]"]
      updateSettings_persists_then_publishes
        [of "useSettings \<lparr>items = Map.empty, rejections = [True]\<rparr>" "[(''homepage'', JStr ''https://example.com'')]"]
    by (simp add: useSettings_def updateSettings_def saveSettingsToStorage_def setSettings_def
        setItem_def next_call_rejected_def sp Let_def)
qed

section \<open>Properties of the activity and module feedback log\<close>

lemma log_effects_setItem_logged:
  "log_effects (setItem_logged key item s) = log_effects s @ [SetItem_log key item]"
  by (simp add: setItem_logged_def Let_def split: prod.splits)

lemma next_setItem_logged [simp]:
  "activityLog_next (setItem_logged key item s) = activityLog_next s"
  "moduleFeedback_next (setItem_logged key item s) = moduleFeedback_next s"
  "activityLog (setItem_logged key item s) = activityLog s"
  "moduleFeedback (setItem_logged key item s) = moduleFeedback s"
  by (simp_all add: setItem_logged_def Let_def split: prod.splits)

lemma items_setItem_logged:
  "items (log_storage (setItem_logged key item s)) =
     (if next_call_rejected (log_storage s) then items (log_storage s)
      else (items (log_storage s))(key \<mapsto> item))"
  by (simp add: setItem_logged_def setItem_def Let_def)

lemma logActivity_effects:
  "log_effects (logActivity n t ty c m s) =
     log_effects s @
       [SetActivityLog (take 1000 (newActivity n t ty c m # activityLog s)),
        SetItem_log ACTIVITY_LOG_KEY
          (Json (JArr (map activity_json (take 1000 (newActivity n t ty c m # activityLog s)))))]"
  by (simp add: logActivity_def log_effects_setItem_logged setActivityLog_def Let_def)

lemma addModuleFeedback_effects:
  "log_effects (addModuleFeedback t mn ty msg fr s) =
     log_effects s @
       [SetModuleFeedback (take 500 (newFeedback t mn ty msg fr # moduleFeedback s)),
        SetItem_log MODULE_FEEDBACK_KEY
          (Json (JArr (map feedback_json (take 500 (newFeedback t mn ty msg fr # moduleFeedback s)))))]"
  by (simp add: addModuleFeedback_def log_effects_setItem_logged setModuleFeedback_def Let_def)

text \<open>
  C6, as amended: \<open>logActivity\<close> and \<open>addModuleFeedback\<close> put the new, fully populated
  entry in front of the list their closure holds, cut the result to the cap (1000 entries
  of the activity log, 500 of the module feedback), publish it as the new in-memory state
  and then write the whole cut list to the storage, in that order: the state update comes
  before the write. When the write is rejected the stored items are unchanged and the
  in-memory log has the new entry at its head.
\<close>

theorem record_updates_then_persists:
  "activityLog_next (logActivity n t ty c m s) = take 1000 (newActivity n t ty c m # activityLog s)
   \<and> length (activityLog_next (logActivity n t ty c m s)) \<le> 1000
   \<and> log_effects (logActivity n t ty c m s)
       = log_effects s @
           [SetActivityLog (take 1000 (newActivity n t ty c m # activityLog s)),
            SetItem_log ACTIVITY_LOG_KEY
              (Json (JArr (map activity_json (take 1000 (newActivity n t ty c m # activityLog s)))))]
   \<and> (\<not> next_call_rejected (log_storage s) \<longrightarrow>
        items (log_storage (logActivity n t ty c m s)) ACTIVITY_LOG_KEY
          = Some (Json (JArr (map activity_json (take 1000 (newActivity n t ty c m # activityLog s))))))
   \<and> (next_call_rejected (log_storage s) \<longrightarrow>
        items (log_storage (logActivity n t ty c m s)) = items (log_storage s)
        \<and> hd (activityLog_next (logActivity n t ty c m s)) = newActivity n t ty c m)
   \<and> moduleFeedback_next (addModuleFeedback t mn fty msg fr s)
       = take 500 (newFeedback t mn fty msg fr # moduleFeedback s)
   \<and> length (moduleFeedback_next (addModuleFeedback t mn fty msg fr s)) \<le> 500
   \<and> log_effects (addModuleFeedback t mn fty msg fr s)
       = log_effects s @
           [SetModuleFeedback (take 500 (newFeedback t mn fty msg fr # moduleFeedback s)),
            SetItem_log MODULE_FEEDBACK_KEY
              (Json (JArr (map feedback_json (take 500 (newFeedback t mn fty msg fr # moduleFeedback s)))))]
   \<and> (\<not> next_call_rejected (log_storage s) \<longrightarrow>
        items (log_storage (addModuleFeedback t mn fty msg fr s)) MODULE_FEEDBACK_KEY
          = Some (Json (JArr (map feedback_json (take 500 (newFeedback t mn fty msg fr # moduleFeedback s))))))
   \<and> (next_call_rejected (log_storage s) \<longrightarrow>
        items (log_storage (addModuleFeedback t mn fty msg fr s)) = items (log_storage s)
        \<and> hd (moduleFeedback_next (addModuleFeedback t mn fty msg fr s)) = newFeedback t mn fty msg fr)"
  by (simp add: logActivity_effects addModuleFeedback_effects)
     (simp add: logActivity_def addModuleFeedback_def items_setItem_logged setActivityLog_def
       setModuleFeedback_def Let_def take_Suc_Cons[of 999, simplified] take_Suc_Cons[of 499, simplified])

theorem record_updates_then_persists_witness:
  "next_call_rejected (log_storage
      \<lparr>activityLog = [], activityLog_next = [], moduleFeedback = [], moduleFeedback_next = [],
       log_storage = \<lparr>items = Map.empty, rejections = [True]\<rparr>, log_effects = []\<rparr>)
   \<and> activityLog_next (logActivity 1700 ''2026-11-02T12:00:00.000Z'' ''NAVIGATION''
        ''User navigated to: https://example.com'' None
        \<lparr>activityLog = [], activityLog_next = [], moduleFeedback = [], moduleFeedback_next = [],
         log_storage = \<lparr>items = Map.empty, rejections = [True]\<rparr>, log_effects = []\<rparr>)
      = [\<lparr>a_id = ''1700'', a_timestamp = ''2026-11-02T12:00:00.000Z'', activity_type = ''NAVIGATION'',
          content = ''User navigated to: https://example.com'', a_module = None\<rparr>]
   \<and> items (log_storage (logActivity 1700 ''2026-11-02T12:00:00.000Z'' ''NAVIGATION''
        ''User navigated to: https://example.com'' None
        \<lparr>activityLog = [], activityLog_next = [], moduleFeedback = [], moduleFeedback_next = [],
         log_storage = \<lparr>items = Map.empty, rejections = [True]\<rparr>, log_effects = []\<rparr>)) ACTIVITY_LOG_KEY
      = None
   \<and> \<not> next_call_rejected (log_storage
      \<lparr>activityLog = [], activityLog_next = [], moduleFeedback = [], moduleFeedback_next = [],
       log_storage = \<lparr>items = Map.empty, rejections = []\<rparr>, log_effects = []\<rparr>)
   \<and> items (log_storage (addModuleFeedback ''2026-11-02T12:00:00.000Z'' ''KAiSurf'' INFO ''Hello'' None
        \<lparr>activityLog = [], activityLog_next = [], moduleFeedback = [], moduleFeedback_next = [],
         log_storage = \<lparr>items = Map.empty, rejections = []\<rparr>, log_effects = []\<rparr>)) MODULE_FEEDBACK_KEY
      = Some (Json (JArr [JObj [(''module_name'', JStr ''KAiSurf''), (''feedback_type'', JStr ''INFO''),
                               (''message'', JStr ''Hello''),
                               (''timestamp'', JStr ''2026-11-02T12:00:00.000Z'')]]))"
  using record_updates_then_persists
    [where n = 1700 and t = "''2026-11-02T12:00:00.000Z''" and ty = "''NAVIGATION''"
       and c = "''User navigated to: https://example.com''" and m = None
       and s = "\<lparr>activityLog = [], activityLog_next = [], moduleFeedback = [], moduleFeedback_next = [],
                 log_storage = \<lparr>items = Map.empty, rejections = [True]\<rparr>, log_effects = []\<rparr>"
       and mn = "''KAiSurf''" and fty = INFO and msg = "''Hello''" and fr = None]
    record_updates_then_persists
    [where n = 1700 and t = "''2026-11-02T12:00:00.000Z''" and ty = "''NAVIGATION''"
       and c = "''User navigated to: https://example.com''" and m = None
       and s = "\<lparr>activityLog = [], activityLog_next = [], moduleFeedback = [], moduleFeedback_next = [],
                 log_storage = \<lparr>items = Map.empty, rejections = []\<rparr>, log_effects = []\<rparr>"
       and mn = "''KAiSurf''" and fty = INFO and msg = "''Hello''" and fr = None]
  by (simp add: next_call_rejected_def newActivity_def newFeedback_def decimal.simps
      feedback_json_def feedback_type_name_def optional_field_def)

text \<open>The trace of one \<open>logActivity\<close>: the state update first, the storage write second.\<close>

theorem logActivity_order_counterexample:
  "log_effects (logActivity 1793620800000 ''2026-11-02T12:00:00.000Z'' ''NAVIGATION''
      ''User navigated to: https://example.com'' None
      \<lparr>activityLog = [], activityLog_next = [], moduleFeedback = [], moduleFeedback_next = [],
       log_storage = \<lparr>items = Map.empty, rejections = []\<rparr>, log_effects = []\<rparr>)
   = [SetActivityLog
        [\<lparr>a_id = ''1793620800000'', a_timestamp = ''2026-11-02T12:00:00.000Z'',
          activity_type = ''NAVIGATION'', content = ''User navigated to: https://example.com'',
          a_module = None\<rparr>],
      SetItem_log ''@koralai_activity_log''
        (Json (JArr [JObj [(''id'', JStr ''1793620800000''),
                           (''timestamp'', JStr ''2026-11-02T12:00:00.000Z''),
                           (''activity_type'', JStr ''NAVIGATION''),
                           (''content'', JStr ''User navigated to: https://example.com'')]]))]"
  by (simp add: logActivity_def setItem_logged_def setActivityLog_def setItem_def
      next_call_rejected_def newActivity_def decimal.simps activity_json_def optional_field_def
      ACTIVITY_LOG_KEY_def Let_def)


lemma closure_constants [simp]:
  "activityLog (logActivity n t ty c m s) = activityLog s"
  "moduleFeedback (logActivity n t ty c m s) = moduleFeedback s"
  "activityLog (addModuleFeedback t mn fty msg fr s) = activityLog s"
  "moduleFeedback (addModuleFeedback t mn fty msg fr s) = moduleFeedback s"
  by (simp_all add: logActivity_def addModuleFeedback_def setActivityLog_def setModuleFeedback_def Let_def)





end
